theory Spec2Isabelle
  imports Main "HOL-Library.Sublist"
begin

section \<open>Route tables of the RouteProtector component\<close>

text \<open>
  \<^verbatim>\<open>DASHBOARD_ROUTES\<close> is an object literal; \<^verbatim>\<open>Object.keys\<close> lists its keys in
  insertion order, so it is an association list.  Paths and roles are JavaScript strings,
  modelled as character lists; \<^verbatim>\<open>startsWith\<close> is \<^const>\<open>prefix\<close>.
\<close>

definition DASHBOARD_ROUTES :: "(string \<times> string list) list" where
  "DASHBOARD_ROUTES =
     [(''/admin'', [''admin'']),
      (''/teacher'', [''teacher'']),
      (''/student'', [''student'']),
      (''/parent'', [''parent''])]"

definition LIST_ROUTES :: "string list" where
  "LIST_ROUTES = [''/list'', ''/profile'', ''/settings'', ''/logout'']"

definition PROTECTED_ROUTES :: "string list" where
  "PROTECTED_ROUTES = map fst DASHBOARD_ROUTES @ LIST_ROUTES"

definition isProtectedRoute :: "string \<Rightarrow> bool" where
  "isProtectedRoute pathname = list_ex (\<lambda>route. prefix route pathname) PROTECTED_ROUTES"

text \<open>The \<^verbatim>\<open>for\<close> loop with its early \<^verbatim>\<open>return\<close> is the first hit of \<^const>\<open>find\<close>.\<close>

definition getDashboardRoute :: "string \<Rightarrow> string option" where
  "getDashboardRoute pathname =
     find (\<lambda>route. prefix (route @ ''/'') pathname \<or> pathname = route)
       (map fst DASHBOARD_ROUTES)"

text \<open>The test of that loop: the path is the route or lies below it.\<close>

definition segment_match :: "string \<Rightarrow> string \<Rightarrow> bool" where
  "segment_match route path = (prefix (route @ ''/'') path \<or> path = route)"

text \<open>
  \<^verbatim>\<open>DASHBOARD_ROUTES[dashboardRoute]\<close>.  The key always comes from
  \<^const>\<open>getDashboardRoute\<close>, hence from the table itself (lemma
  \<open>getDashboardRoute_in_table\<close> below); the empty list stands for the
  \<^verbatim>\<open>undefined\<close> of a key that is not there.
\<close>

definition allowedRolesOf :: "string \<Rightarrow> string list" where
  "allowedRolesOf dashboardRoute =
     (case map_of DASHBOARD_ROUTES dashboardRoute of Some rs \<Rightarrow> rs | None \<Rightarrow> [])"

section \<open>The Clerk user object and the role claim\<close>

text \<open>
  \<^verbatim>\<open>user?.publicMetadata?.role || null\<close> inside \<^verbatim>\<open>try\<close>/\<^verbatim>\<open>catch\<close>.  The user may be
  absent, its metadata may be absent, the metadata may lack the key, and the property
  access may throw (the \<^verbatim>\<open>catch\<close> branch); every one of these yields \<^verbatim>\<open>null\<close>.
\<close>

datatype metadata = Unreadable | Metadata "(string \<times> string) list"

text \<open>
  A user object has an identity: \<open>objectRef\<close> is the reference that \<^verbatim>\<open>Object.is\<close>
  compares.  Clerk hands out a new object when the user changes and does not mutate one
  in place, so a value of this record, reference and content together, stands for one
  JavaScript object; a new object of equal content differs in \<open>objectRef\<close>.
\<close>

record clerk_user =
  objectRef :: nat
  publicMetadata :: "metadata option"

datatype read_error = ReadThrew

definition read_role :: "clerk_user option \<Rightarrow> read_error + string option" where
  "read_role user =
     (case user of
        None \<Rightarrow> Inr None
      | Some u \<Rightarrow>
          (case publicMetadata u of
             None \<Rightarrow> Inr None
           | Some Unreadable \<Rightarrow> Inl ReadThrew
           | Some (Metadata kvs) \<Rightarrow> Inr (map_of kvs ''role'')))"

text \<open>A JavaScript string is falsy exactly when it is empty.\<close>

definition falsy :: "string option \<Rightarrow> bool" where
  "falsy v = (v = None \<or> v = Some [])"

definition getUserRoleFromClaims :: "clerk_user option \<Rightarrow> string option" where
  "getUserRoleFromClaims user =
     (case read_role user of
        Inl e \<Rightarrow> None
      | Inr r \<Rightarrow> (if falsy r then None else r))"

section \<open>The Loading Flag and the state of RouteProtector\<close>

text \<open>
  What a render of \<^verbatim>\<open>RouteProtector\<close> sees: the values of the hooks
  \<^verbatim>\<open>usePathname\<close>, \<^verbatim>\<open>useAuth\<close>, \<^verbatim>\<open>useUser\<close> (the environment) and of its two
  \<^verbatim>\<open>useState\<close> cells.  The effects of one render all close over this snapshot.
\<close>

record env =
  pathname :: "string option"
  isLoaded :: bool
  userId :: "string option"
  user :: "clerk_user option"

record snapshot = env +
  userRole :: "string option"
  isRoleLoaded :: bool

text \<open>
  The mutable cells: the two \<^verbatim>\<open>useState\<close> cells of the component, the Loading Flag
  \<^verbatim>\<open>isAuthLoading\<close> of \<^verbatim>\<open>AuthLoadingProvider\<close>, the log of \<^verbatim>\<open>router.push\<close> calls, and
  a ghost counter of the calls of \<^verbatim>\<open>getUserRoleFromClaims\<close>.
\<close>

record cells =
  c_userRole :: "string option"
  c_isRoleLoaded :: bool
  isAuthLoading :: bool
  pushed :: "string list"
  roleReads :: nat

text \<open>\<^verbatim>\<open>useState(true)\<close> in the provider, \<^verbatim>\<open>useState(null)\<close> and \<^verbatim>\<open>useState(false)\<close> in the component.\<close>

definition initial_cells :: cells where
  "initial_cells =
     \<lparr>c_userRole = None, c_isRoleLoaded = False, isAuthLoading = True, pushed = [], roleReads = 0\<rparr>"

definition setAuthLoading :: "bool \<Rightarrow> cells \<Rightarrow> cells" where
  "setAuthLoading loading c = c\<lparr>isAuthLoading := loading\<rparr>"

definition router_push :: "string \<Rightarrow> cells \<Rightarrow> cells" where
  "router_push target c = c\<lparr>pushed := pushed c @ [target]\<rparr>"

text \<open>\<^verbatim>\<open>pathname && isProtectedRoute(pathname)\<close>\<close>

definition protectedPath :: "string option \<Rightarrow> bool" where
  "protectedPath p = (case p of None \<Rightarrow> False | Some s \<Rightarrow> s \<noteq> [] \<and> isProtectedRoute s)"

subsection \<open>Effect 0: show the loader on a protected route\<close>

definition effect0 :: "snapshot \<Rightarrow> cells \<Rightarrow> cells" where
  "effect0 r c =
     (if protectedPath (pathname r) then setAuthLoading True c else setAuthLoading False c)"

subsection \<open>Effect 1: read the role from the claims\<close>

definition effect1 :: "snapshot \<Rightarrow> cells \<Rightarrow> cells" where
  "effect1 r c =
     (if \<not> isLoaded r then c
      else if falsy (userId r) \<or> user r = None then
        c\<lparr>c_isRoleLoaded := True, c_userRole := None\<rparr>
      else
        c\<lparr>c_userRole := getUserRoleFromClaims (user r), c_isRoleLoaded := True,
          roleReads := Suc (roleReads c)\<rparr>)"

subsection \<open>Effect 2: the authorization check\<close>

text \<open>
  The branches of the main effect, in the order of the source: the two early returns
  that wait, the public route, the missing identity, the wrong role, and the fall-through
  where every check passed.
\<close>

datatype outcome = Waiting | Public | Deny | Allow

definition roleAllowed :: "string option \<Rightarrow> string list \<Rightarrow> bool" where
  "roleAllowed role allowedRoles = (\<not> falsy role \<and> (case role of None \<Rightarrow> False | Some x \<Rightarrow> x \<in> set allowedRoles))"

definition check :: "snapshot \<Rightarrow> outcome" where
  "check r =
     (if \<not> isLoaded r then Waiting
      else if protectedPath (pathname r) \<and> \<not> isRoleLoaded r then Waiting
      else
        (case pathname r of
           None \<Rightarrow> Public
         | Some p \<Rightarrow>
             if p = [] \<or> \<not> isProtectedRoute p then Public
             else if falsy (userId r) then Deny
             else
               (case getDashboardRoute p of
                  Some dashboardRoute \<Rightarrow>
                    (if \<not> roleAllowed (userRole r) (allowedRolesOf dashboardRoute)
                     then Deny else Allow)
                | None \<Rightarrow> Allow)))"

definition effect2 :: "snapshot \<Rightarrow> cells \<Rightarrow> cells" where
  "effect2 r c =
     (case check r of
        Waiting \<Rightarrow> c
      | Public \<Rightarrow> setAuthLoading False c
      | Deny \<Rightarrow> router_push ''/sign-in'' (setAuthLoading False c)
      | Allow \<Rightarrow> setAuthLoading False c)"

subsection \<open>Renders and commits\<close>

text \<open>
  An effect runs after the first render, and after a later render when one of its
  dependencies differs from the previous render.  \<^verbatim>\<open>setAuthLoading\<close> and \<^verbatim>\<open>router\<close>
  are stable references and never differ.  React compares dependencies with
  \<^verbatim>\<open>Object.is\<close>: the path, the flags, the user id and the role are primitives and are
  compared as values; \<^verbatim>\<open>user\<close> is an object and is compared by reference, which is part
  of a \<^typ>\<open>clerk_user\<close>, so that a new user object of equal content counts as changed.
\<close>

definition deps0 :: "snapshot \<Rightarrow> string option" where
  "deps0 r = pathname r"

definition deps1 :: "snapshot \<Rightarrow> bool \<times> string option \<times> clerk_user option" where
  "deps1 r = (isLoaded r, userId r, user r)"

definition deps2 :: "snapshot \<Rightarrow> string option \<times> bool \<times> bool \<times> string option \<times> string option" where
  "deps2 r = (pathname r, isLoaded r, isRoleLoaded r, userId r, userRole r)"

definition changed :: "(snapshot \<Rightarrow> 'a) \<Rightarrow> snapshot option \<Rightarrow> snapshot \<Rightarrow> bool" where
  "changed deps prev r = (case prev of None \<Rightarrow> True | Some q \<Rightarrow> deps q \<noteq> deps r)"

text \<open>
  The effects of one render run in the order of their declaration; each reads the
  snapshot of that render and writes the cells.
\<close>

definition commit :: "snapshot option \<Rightarrow> snapshot \<Rightarrow> cells \<Rightarrow> cells" where
  "commit prev r c =
     (let c0 = (if changed deps0 prev r then effect0 r c else c);
          c1 = (if changed deps1 prev r then effect1 r c0 else c0);
          c2 = (if changed deps2 prev r then effect2 r c1 else c1)
      in c2)"

record world =
  rendered :: "snapshot option"
  cells :: cells

definition snapshot_of :: "env \<Rightarrow> cells \<Rightarrow> snapshot" where
  "snapshot_of e c =
     \<lparr>pathname = pathname e, isLoaded = isLoaded e, userId = userId e, user = user e,
      userRole = c_userRole c, isRoleLoaded = c_isRoleLoaded c\<rparr>"

definition render :: "env \<Rightarrow> world \<Rightarrow> world" where
  "render e w =
     (let r = snapshot_of e (cells w)
      in \<lparr>rendered = Some r, cells = commit (rendered w) r (cells w)\<rparr>)"

definition mount :: world where
  "mount = \<lparr>rendered = None, cells = initial_cells\<rparr>"

text \<open>
  A run is a sequence of renders, each under the environment of its moment.  A render and
  the effects it schedules are one step; a render under an unchanged environment is the
  re-render that follows a change of the cells.
\<close>

fun run :: "env list \<Rightarrow> world \<Rightarrow> world" where
  "run [] w = w"
| "run (e # es) w = run es (render e w)"

text \<open>The outcome of the check of the latest render.\<close>

definition decision :: "world \<Rightarrow> outcome" where
  "decision w = (case rendered w of None \<Rightarrow> Waiting | Some r \<Rightarrow> check r)"

text \<open>What effect 1 stores for the identity of a render.\<close>

definition resolved :: "snapshot \<Rightarrow> string option" where
  "resolved r =
     (if falsy (userId r) \<or> user r = None then None else getUserRoleFromClaims (user r))"

text \<open>The last \<^verbatim>\<open>router.push\<close> went to the sign-in page.\<close>

definition redirected :: "cells \<Rightarrow> bool" where
  "redirected c = (pushed c \<noteq> [] \<and> last (pushed c) = ''/sign-in'')"


section \<open>The render layer\<close>

text \<open>
  The body of \<^verbatim>\<open>RootLayout\<close> is the provider around \<^verbatim>\<open>AuthLoadingOverlay\<close>,
  \<^verbatim>\<open>SignInLoader\<close> and \<^verbatim>\<open>RouteProtector\<close>, which wraps the page.  A component that
  returns \<^verbatim>\<open>null\<close> mounts nothing; the result of a render is the list of mounted
  elements.  \<^verbatim>\<open>isVisible\<close> is the local state of \<^verbatim>\<open>SignInLoader\<close>.
\<close>

datatype 'a element = LoaderOverlay | SignInOverlay | Page 'a | Analytics | SpeedInsights

definition AuthLoadingOverlay :: "bool \<Rightarrow> 'a element list" where
  "AuthLoadingOverlay flag = (if \<not> flag then [] else [LoaderOverlay])"

definition SignInLoader :: "bool \<Rightarrow> 'a element list" where
  "SignInLoader isVisible = (if \<not> isVisible then [] else [SignInOverlay])"

definition RouteProtector :: "'a element list \<Rightarrow> 'a element list" where
  "RouteProtector children = children"

definition RootLayout :: "bool \<Rightarrow> bool \<Rightarrow> 'a \<Rightarrow> 'a element list" where
  "RootLayout flag isVisible children =
     AuthLoadingOverlay flag @ SignInLoader isVisible @
     RouteProtector [Page children, Analytics, SpeedInsights]"

section \<open>The role endpoints\<close>

text \<open>
  The persistent store behind Prisma maps an identity to its row; the claims mirror is
  the \<^verbatim>\<open>role\<close> key of Clerk's \<^verbatim>\<open>publicMetadata\<close> per identity.  A call of Clerk's
  backend API may fail: \<open>clerk_calls\<close> lists the results of the calls still to come
  (\<open>True\<close> for success), and every call consumes one; when the list is empty the call
  succeeds.  The Prisma schema is not part of the sources: a row has the fields the
  handlers write, and only the primary key is unique.
\<close>

record user_row =
  email :: string
  role :: string

record backend =
  users :: "string \<rightharpoonup> user_row"
  claims :: "string \<rightharpoonup> string"
  clerk_calls :: "bool list"

text \<open>A field of the JSON body: missing, a string, or a value of another type.\<close>

datatype field = Absent | Str string | NonString

text \<open>
  \<open>http_method\<close> is \<^verbatim>\<open>req.method\<close>.  \<open>caller\<close> is the Clerk session of whoever sends
  the request (none for an anonymous caller), with the role it carries.
\<close>

record request =
  http_method :: string
  caller :: "(string \<times> string) option"
  body_userId :: field
  body_newRole :: field

datatype payload = Role string | Error string

type_synonym response = "nat \<times> payload"

definition VALID_ROLES :: "string list" where
  "VALID_ROLES = [''admin'', ''teacher'', ''student'', ''parent'']"

text \<open>\<^verbatim>\<open>!userId || typeof userId !== "string"\<close>\<close>

definition valid_id :: "field \<Rightarrow> string option" where
  "valid_id f = (case f of Str s \<Rightarrow> (if s = [] then None else Some s) | _ \<Rightarrow> None)"

text \<open>\<^verbatim>\<open>!newRole || ![...].includes(newRole)\<close>\<close>

definition valid_role :: "field \<Rightarrow> string option" where
  "valid_role f = (case f of Str s \<Rightarrow> (if s \<in> set VALID_ROLES then Some s else None) | _ \<Rightarrow> None)"

subsection \<open>POST /api/user/role\<close>

definition role_handler :: "request \<Rightarrow> backend \<Rightarrow> response \<times> backend" where
  "role_handler req b =
     (if http_method req \<noteq> ''POST'' then ((405, Error ''Method not allowed''), b)
      else
        (case valid_id (body_userId req) of
           None \<Rightarrow> ((400, Error ''User ID is required''), b)
         | Some uid \<Rightarrow>
             (case users b uid of
                Some row \<Rightarrow> ((200, Role (role row)), b)
              | None \<Rightarrow>
                  (let row = \<lparr>email = [], role = ''student''\<rparr>
                   in ((200, Role (role row)), b\<lparr>users := (users b)(uid \<mapsto> row)\<rparr>)))))"

subsection \<open>POST /api/user/update-role\<close>

text \<open>
  \<^verbatim>\<open>prisma.user.update\<close> throws when no row has the id; \<^verbatim>\<open>updateUserMetadata\<close> throws
  when the call to Clerk fails.  Both land in the \<^verbatim>\<open>catch\<close> that answers 500, and what
  was written before the throw stays written.
\<close>

definition updateUserMetadata :: "string \<Rightarrow> string \<Rightarrow> backend \<Rightarrow> backend option" where
  "updateUserMetadata uid r b =
     (case clerk_calls b of
        False # rest \<Rightarrow> None
      | _ \<Rightarrow> Some (b\<lparr>claims := (claims b)(uid \<mapsto> r)\<rparr>))"

definition clerk_called :: "backend \<Rightarrow> backend" where
  "clerk_called b = b\<lparr>clerk_calls := tl (clerk_calls b)\<rparr>"

definition update_role_handler :: "request \<Rightarrow> backend \<Rightarrow> response \<times> backend" where
  "update_role_handler req b =
     (if http_method req \<noteq> ''POST'' then ((405, Error ''Method not allowed''), b)
      else
        (case valid_id (body_userId req) of
           None \<Rightarrow> ((400, Error ''User ID is required''), b)
         | Some uid \<Rightarrow>
             (case valid_role (body_newRole req) of
                None \<Rightarrow> ((400, Error ''Valid role is required''), b)
              | Some newRole \<Rightarrow>
                  (case users b uid of
                     None \<Rightarrow> ((500, Error ''Internal server error''), b)
                   | Some row \<Rightarrow>
                       (let updatedUser = row\<lparr>role := newRole\<rparr>;
                            b1 = b\<lparr>users := (users b)(uid \<mapsto> updatedUser)\<rparr>
                        in case updateUserMetadata uid newRole b1 of
                             None \<Rightarrow> ((500, Error ''Internal server error''), clerk_called b1)
                           | Some b2 \<Rightarrow> ((200, Role (role updatedUser)), clerk_called b2))))))"

section \<open>Scenarios\<close>

text \<open>
  The environments and stores of the scenarios below.  The user object that Clerk hands
  to the client carries the claims mirror of its identity as \<^verbatim>\<open>publicMetadata\<close>.
\<close>

definition claims_user :: "backend \<Rightarrow> string \<Rightarrow> clerk_user" where
  "claims_user b uid =
     \<lparr>objectRef = 0,
      publicMetadata =
        Some (Metadata (case claims b uid of None \<Rightarrow> [] | Some r \<Rightarrow> [(''role'', r)]))\<rparr>"

definition signed_in :: "backend \<Rightarrow> string \<Rightarrow> string \<Rightarrow> env" where
  "signed_in b uid p =
     \<lparr>pathname = Some p, isLoaded = True, userId = Some uid, user = Some (claims_user b uid)\<rparr>"

definition unreadable :: "string \<Rightarrow> string \<Rightarrow> env" where
  "unreadable uid p =
     \<lparr>pathname = Some p, isLoaded = True, userId = Some uid,
      user = Some \<lparr>objectRef = 0, publicMetadata = Some Unreadable\<rparr>\<rparr>"

text \<open>The same environment with a new user object of the same content.\<close>

definition fresh_object :: "nat \<Rightarrow> env \<Rightarrow> env" where
  "fresh_object n e = e\<lparr>user := map_option (\<lambda>u. u\<lparr>objectRef := n\<rparr>) (user e)\<rparr>"

definition signed_out :: "string \<Rightarrow> env" where
  "signed_out p = \<lparr>pathname = Some p, isLoaded = True, userId = None, user = None\<rparr>"

definition loading :: "string \<Rightarrow> env" where
  "loading p = \<lparr>pathname = Some p, isLoaded = False, userId = None, user = None\<rparr>"

definition store :: "(string \<times> string) list \<Rightarrow> (string \<times> string) list \<Rightarrow> bool list \<Rightarrow> backend" where
  "store rows mirror calls =
     \<lparr>users = map_of (map (\<lambda>(uid, r). (uid, \<lparr>email = uid @ ''@school.test'', role = r\<rparr>)) rows),
      claims = map_of mirror, clerk_calls = calls\<rparr>"

definition post :: "(string \<times> string) option \<Rightarrow> field \<Rightarrow> field \<Rightarrow> request" where
  "post who uid newRole =
     \<lparr>http_method = ''POST'', caller = who, body_userId = uid, body_newRole = newRole\<rparr>"

section \<open>Properties of renders and commits\<close>

lemma run_snoc: "run (es @ [e]) w = render e (run es w)"
  by (induction es arbitrary: w) simp_all

lemma rendered_render: "rendered (render e w) = Some (snapshot_of e (cells w))"
  by (simp add: render_def Let_def)

lemma cells_render: "cells (render e w) = commit (rendered w) (snapshot_of e (cells w)) (cells w)"
  by (simp add: render_def Let_def)

lemma check_deps2: "deps2 q = deps2 r \<Longrightarrow> check q = check r"
  by (auto simp: deps2_def check_def split: option.splits)

lemma unchanged_prev: "\<not> changed deps prev r \<Longrightarrow> \<exists>q. prev = Some q \<and> deps q = deps r"
  by (auto simp: changed_def split: option.splits)

lemma effect2_flag: "check r \<noteq> Waiting \<Longrightarrow> \<not> isAuthLoading (effect2 r c)"
  by (cases "check r") (simp_all add: effect2_def setAuthLoading_def router_push_def)

lemma effect2_waiting: "check r = Waiting \<Longrightarrow> effect2 r c = c"
  by (simp add: effect2_def)

lemma effect2_role_cells:
  "c_isRoleLoaded (effect2 r c) = c_isRoleLoaded c"
  "c_userRole (effect2 r c) = c_userRole c"
  "roleReads (effect2 r c) = roleReads c"
  by (cases "check r"; simp add: effect2_def setAuthLoading_def router_push_def)+

lemma effect2_pushed:
  "pushed (effect2 r c) = (if check r = Deny then pushed c @ [''/sign-in''] else pushed c)"
  by (cases "check r") (simp_all add: effect2_def setAuthLoading_def router_push_def)

lemma effect0_other:
  "c_isRoleLoaded (effect0 r c) = c_isRoleLoaded c"
  "c_userRole (effect0 r c) = c_userRole c"
  "pushed (effect0 r c) = pushed c"
  "roleReads (effect0 r c) = roleReads c"
  by (simp_all add: effect0_def setAuthLoading_def)


lemma effect1_other:
  "isAuthLoading (effect1 r c) = isAuthLoading c"
  "pushed (effect1 r c) = pushed c"
  by (simp_all add: effect1_def)

lemma effect1_loaded:
  "isLoaded r \<Longrightarrow> c_isRoleLoaded (effect1 r c) \<and> c_userRole (effect1 r c) = resolved r"
  by (simp add: effect1_def resolved_def)

lemma effect1_sticky: "c_isRoleLoaded c \<Longrightarrow> c_isRoleLoaded (effect1 r c)"
  by (simp add: effect1_def)

lemma commit_sticky: "c_isRoleLoaded c \<Longrightarrow> c_isRoleLoaded (commit prev r c)"
  by (simp add: commit_def Let_def effect2_role_cells effect0_other effect1_sticky)

lemma resolved_deps1: "deps1 q = deps1 r \<Longrightarrow> resolved q = resolved r"
  by (simp add: deps1_def resolved_def)

subsection \<open>After a loaded render the role cells hold the role of its identity\<close>

lemma role_cells_commit:
  assumes "isLoaded r"
    and "\<And>q. prev = Some q \<Longrightarrow> isLoaded q \<Longrightarrow> c_isRoleLoaded c \<and> c_userRole c = resolved q"
  shows "c_isRoleLoaded (commit prev r c) \<and> c_userRole (commit prev r c) = resolved r"
proof (cases "changed deps1 prev r")
  case True
  with assms(1) show ?thesis
    by (simp add: commit_def Let_def effect2_role_cells effect1_loaded)
next
  case False
  then obtain q where q: "prev = Some q" "deps1 q = deps1 r"
    using unchanged_prev by blast
  from q(2) assms(1) have "isLoaded q" by (simp add: deps1_def)
  with assms(2) q(1) have "c_isRoleLoaded c \<and> c_userRole c = resolved q" by blast
  moreover from q(2) have "resolved q = resolved r" by (rule resolved_deps1)
  ultimately show ?thesis using False
    by (simp add: commit_def Let_def effect2_role_cells effect0_other)
qed

lemma role_cells_inv:
  "rendered (run es mount) = Some r \<Longrightarrow> isLoaded r \<Longrightarrow>
     c_isRoleLoaded (cells (run es mount)) \<and> c_userRole (cells (run es mount)) = resolved r"
proof (induction es arbitrary: r rule: rev_induct)
  case Nil
  then show ?case by (simp add: mount_def)
next
  case (snoc e es)
  define w where "w = run es mount"
  from snoc.prems(1) have r: "snapshot_of e (cells w) = r"
    by (simp add: run_snoc rendered_render w_def)
  have "c_isRoleLoaded (commit (rendered w) r (cells w)) \<and>
        c_userRole (commit (rendered w) r (cells w)) = resolved r"
    using snoc.prems(2) snoc.IH unfolding w_def by (rule role_cells_commit)
  then show ?case
    by (simp add: run_snoc cells_render w_def[symmetric] r)
qed

subsection \<open>A check that has left the waiting state has cleared the flag\<close>

lemma settled_commit:
  assumes "check r \<noteq> Waiting"
    and "\<And>q. prev = Some q \<Longrightarrow> check q \<noteq> Waiting \<Longrightarrow> \<not> isAuthLoading c"
  shows "\<not> isAuthLoading (commit prev r c)"
proof (cases "changed deps2 prev r")
  case True
  with assms(1) show ?thesis
    by (simp add: commit_def Let_def effect2_flag)
next
  case False
  then obtain q where q: "prev = Some q" "deps2 q = deps2 r"
    using unchanged_prev by blast
  from q(2) have "check q = check r" by (rule check_deps2)
  with assms q(1) have "\<not> isAuthLoading c" by simp
  moreover from q have "\<not> changed deps0 prev r"
    by (simp add: changed_def deps0_def deps2_def)
  ultimately show ?thesis using False
    by (simp add: commit_def Let_def effect1_other)
qed

lemma settled_inv:
  "rendered (run es mount) = Some r \<Longrightarrow> check r \<noteq> Waiting \<Longrightarrow>
     \<not> isAuthLoading (cells (run es mount))"
proof (induction es arbitrary: r rule: rev_induct)
  case Nil
  then show ?case by (simp add: mount_def)
next
  case (snoc e es)
  define w where "w = run es mount"
  from snoc.prems(1) have r: "snapshot_of e (cells w) = r"
    by (simp add: run_snoc rendered_render w_def)
  have "\<not> isAuthLoading (commit (rendered w) r (cells w))"
    using snoc.prems(2) snoc.IH unfolding w_def by (rule settled_commit)
  then show ?case
    by (simp add: run_snoc cells_render w_def[symmetric] r)
qed

subsection \<open>A denial has pushed the sign-in page last\<close>

lemma denied_commit:
  assumes "check r = Deny"
    and "\<And>q. prev = Some q \<Longrightarrow> check q = Deny \<Longrightarrow> redirected c"
  shows "redirected (commit prev r c)"
proof (cases "changed deps2 prev r")
  case True
  with assms(1) show ?thesis
    by (simp add: commit_def Let_def effect2_pushed redirected_def)
next
  case False
  then obtain q where q: "prev = Some q" "deps2 q = deps2 r"
    using unchanged_prev by blast
  from q(2) have "check q = check r" by (rule check_deps2)
  with assms q(1) have "redirected c" by simp
  then show ?thesis using False
    by (simp add: commit_def Let_def effect1_other effect0_other redirected_def)
qed

lemma denied_inv:
  "rendered (run es mount) = Some r \<Longrightarrow> check r = Deny \<Longrightarrow> redirected (cells (run es mount))"
proof (induction es arbitrary: r rule: rev_induct)
  case Nil
  then show ?case by (simp add: mount_def)
next
  case (snoc e es)
  define w where "w = run es mount"
  from snoc.prems(1) have r: "snapshot_of e (cells w) = r"
    by (simp add: run_snoc rendered_render w_def)
  have "redirected (commit (rendered w) r (cells w))"
    using snoc.prems(2) snoc.IH unfolding w_def by (rule denied_commit)
  then show ?case
    by (simp add: run_snoc cells_render w_def[symmetric] r)
qed


subsection \<open>On a public path the flag is down\<close>



subsection \<open>While the check waits the flag shows whether the path is protected\<close>



lemma check_waiting_iff:
  "check r = Waiting \<longleftrightarrow> \<not> isLoaded r \<or> (protectedPath (pathname r) \<and> \<not> isRoleLoaded r)"
  by (auto simp: check_def split: option.splits)


subsection \<open>Two renders under one environment reach a fixed point\<close>

lemma snapshot_commit2:
  "\<not> changed deps1 prev r \<Longrightarrow> snapshot_of e (commit prev r c) = snapshot_of e c"
  by (simp add: snapshot_of_def commit_def Let_def effect2_role_cells effect0_other)

lemma render_fixed:
  assumes "rendered w = Some (snapshot_of e (cells w))"
  shows "render e w = w"
proof -
  have "commit (rendered w) (snapshot_of e (cells w)) (cells w) = cells w"
    using assms by (simp add: commit_def Let_def changed_def)
  with assms show ?thesis by (simp add: render_def Let_def)
qed

lemma render_twice_fixed: "render e (render e (render e w)) = render e (render e w)"
proof (rule render_fixed)
  let ?w1 = "render e w"
  let ?r2 = "snapshot_of e (cells ?w1)"
  have "\<not> changed deps1 (rendered ?w1) ?r2"
    by (simp add: rendered_render changed_def deps1_def snapshot_of_def)
  then have "snapshot_of e (commit (rendered ?w1) ?r2 (cells ?w1)) = ?r2"
    by (rule snapshot_commit2)
  then show "rendered (render e ?w1) = Some (snapshot_of e (cells (render e ?w1)))"
    by (simp add: rendered_render cells_render)
qed

lemma run_replicate_settled:
  "run (replicate (Suc (Suc n)) e) w = render e (render e w)"
proof (induction n)
  case 0
  show ?case by simp
next
  case (Suc n)
  have "run (replicate (Suc (Suc (Suc n))) e) w = run (replicate (Suc (Suc n)) e @ [e]) w"
    by (simp add: replicate_append_same)
  also have "\<dots> = render e (run (replicate (Suc (Suc n)) e) w)" by (rule run_snoc)
  also have "\<dots> = render e (render e (render e w))" by (simp only: Suc.IH)
  also have "\<dots> = render e (render e w)" by (rule render_twice_fixed)
  finally show ?case .
qed

section \<open>Properties of the route tables\<close>

lemma run_append: "run (xs @ ys) w = run ys (run xs w)"
  by (induction xs arbitrary: w) simp_all

lemma allowed_iff:
  "rl \<in> set VALID_ROLES \<Longrightarrow> p \<in> set (map fst DASHBOARD_ROUTES) \<Longrightarrow>
     (rl \<in> set (allowedRolesOf p)) = (p = ''/'' @ rl)"
  by (auto simp: VALID_ROLES_def DASHBOARD_ROUTES_def allowedRolesOf_def)

lemma find_SomeD: "find P xs = Some x \<Longrightarrow> x \<in> set xs \<and> P x"
  by (induction xs) (auto split: if_splits)

lemma getDashboardRoute_Some:
  "getDashboardRoute p = Some d \<Longrightarrow> d \<in> set (map fst DASHBOARD_ROUTES) \<and> segment_match d p"
  unfolding getDashboardRoute_def segment_match_def by (rule find_SomeD)

lemma getDashboardRoute_None:
  "getDashboardRoute p = None \<longleftrightarrow> (\<forall>d \<in> set (map fst DASHBOARD_ROUTES). \<not> segment_match d p)"
  unfolding getDashboardRoute_def segment_match_def
  by (simp add: find_None_iff)

lemma segment_match_prefix: "segment_match d p \<Longrightarrow> prefix d p"
  by (auto simp: segment_match_def dest: append_prefixD)

lemma only_prefix:
  "d \<in> set (map fst DASHBOARD_ROUTES) \<Longrightarrow> segment_match d p \<Longrightarrow>
   d' \<in> set PROTECTED_ROUTES \<Longrightarrow> prefix d' p \<Longrightarrow> d' = d"
proof -
  assume d: "d \<in> set (map fst DASHBOARD_ROUTES)" and d': "d' \<in> set PROTECTED_ROUTES"
    and pre: "prefix d' p"
  assume "segment_match d p"
  then consider zs where "p = d @ ''/'' @ zs" | "p = d"
    by (auto simp: segment_match_def prefix_def)
  then show "d' = d"
  proof cases
    case 1
    with d d' pre show ?thesis
      by (auto simp: DASHBOARD_ROUTES_def PROTECTED_ROUTES_def LIST_ROUTES_def)
  next
    case 2
    with d d' pre show ?thesis
      by (auto simp: DASHBOARD_ROUTES_def PROTECTED_ROUTES_def LIST_ROUTES_def)
  qed
qed

lemma getDashboardRoute_in_table:
  "getDashboardRoute p = Some d \<Longrightarrow> map_of DASHBOARD_ROUTES d \<noteq> None"
  by (drule getDashboardRoute_Some) (auto simp: DASHBOARD_ROUTES_def)

lemma getDashboardRoute_exact:
  "p \<in> set (map fst DASHBOARD_ROUTES) \<Longrightarrow> getDashboardRoute p = Some p"
proof -
  assume "p \<in> set (map fst DASHBOARD_ROUTES)"
  then consider "p = ''/admin''" | "p = ''/teacher''" | "p = ''/student''" | "p = ''/parent''"
    by (auto simp: DASHBOARD_ROUTES_def)
  then show ?thesis
    by cases (simp_all add: getDashboardRoute_def DASHBOARD_ROUTES_def)
qed

lemma dashboard_protected:
  "getDashboardRoute p = Some d \<Longrightarrow> protectedPath (Some p)"
proof -
  assume "getDashboardRoute p = Some d"
  then have d: "d \<in> set (map fst DASHBOARD_ROUTES)" "prefix d p"
    using getDashboardRoute_Some segment_match_prefix by blast+
  then have "d \<noteq> []" by (auto simp: DASHBOARD_ROUTES_def)
  with d(2) have "p \<noteq> []" by auto
  moreover from d have "isProtectedRoute p"
    by (auto simp: isProtectedRoute_def PROTECTED_ROUTES_def list_ex_iff)
  ultimately show ?thesis by (simp add: protectedPath_def)
qed

lemma second_render:
  assumes "isLoaded e"
  shows "\<exists>r. rendered (run (es @ [e, e]) mount) = Some r \<and> pathname r = pathname e \<and>
           isLoaded r \<and> userId r = userId e \<and> user r = user e \<and> isRoleLoaded r \<and>
           userRole r =
             (if falsy (userId e) \<or> user e = None then None else getUserRoleFromClaims (user e))"
proof -
  define w1 where "w1 = run (es @ [e]) mount"
  define r1 where "r1 = snapshot_of e (cells (run es mount))"
  have "rendered w1 = Some r1" "isLoaded r1"
    using assms by (simp_all add: w1_def r1_def run_snoc rendered_render snapshot_of_def)
  then have "c_isRoleLoaded (cells w1) \<and> c_userRole (cells w1) = resolved r1"
    unfolding w1_def by (rule role_cells_inv)
  moreover have "resolved r1 =
      (if falsy (userId e) \<or> user e = None then None else getUserRoleFromClaims (user e))"
    by (simp add: resolved_def r1_def snapshot_of_def)
  moreover have "run (es @ [e, e]) mount = render e w1"
    by (simp add: w1_def run_append)
  ultimately show ?thesis using assms
    by (simp add: rendered_render snapshot_of_def)
qed

lemma fresh_mount_pushed:
  assumes "isLoaded e" "protectedPath (pathname e)"
  shows "pushed (cells (run [e, e] mount)) =
           (if decision (run [e, e] mount) = Deny then [''/sign-in''] else [])"
proof -
  define r1 where "r1 = snapshot_of e initial_cells"
  define c1 where "c1 = commit None r1 initial_cells"
  define r2 where "r2 = snapshot_of e c1"
  define w1 where "w1 = render e mount"
  have w1: "rendered w1 = Some r1" "cells w1 = c1"
    by (simp_all add: w1_def render_def mount_def Let_def r1_def c1_def)
  have run: "run [e, e] mount = render e w1"
    by (simp add: w1_def)
  have "check r1 = Waiting"
    using assms by (simp add: check_waiting_iff r1_def snapshot_of_def initial_cells_def)
  then have c1: "pushed c1 = []" "c_isRoleLoaded c1"
    using assms(1)
    by (simp_all add: c1_def commit_def Let_def changed_def effect2_waiting effect1_other
        effect0_other effect1_loaded r1_def snapshot_of_def initial_cells_def)
  then have "changed deps2 (Some r1) r2"
    by (simp add: changed_def deps2_def r1_def r2_def snapshot_of_def initial_cells_def)
  moreover have "\<not> changed deps0 (Some r1) r2" "\<not> changed deps1 (Some r1) r2"
    by (simp_all add: changed_def deps0_def deps1_def r1_def r2_def snapshot_of_def)
  ultimately have "pushed (commit (Some r1) r2 c1) =
      (if check r2 = Deny then [''/sign-in''] else [])"
    using c1(1) by (simp add: commit_def Let_def effect2_pushed)
  then show ?thesis
    unfolding run by (simp add: w1 cells_render rendered_render decision_def r2_def)
qed

lemma fresh_mount_reads:
  assumes "isLoaded e" "\<not> falsy (userId e)" "user e \<noteq> None"
  shows "roleReads (cells (render e (render e mount))) = 1"
proof -
  define r1 where "r1 = snapshot_of e initial_cells"
  define c1 where "c1 = commit None r1 initial_cells"
  define r2 where "r2 = snapshot_of e c1"
  define w1 where "w1 = render e mount"
  have w1: "rendered w1 = Some r1" "cells w1 = c1"
    by (simp_all add: w1_def render_def mount_def Let_def r1_def c1_def)
  have c1: "roleReads c1 = 1"
    using assms
    by (simp add: c1_def commit_def Let_def changed_def effect2_role_cells effect1_def
        effect0_other r1_def snapshot_of_def initial_cells_def)
  have "\<not> changed deps1 (Some r1) r2"
    by (simp add: changed_def deps1_def r1_def r2_def snapshot_of_def)
  then have "roleReads (commit (Some r1) r2 c1) = 1"
    using c1 by (simp add: commit_def Let_def effect2_role_cells effect0_other)
  then show ?thesis
    unfolding w1_def[symmetric] by (simp add: w1 cells_render r2_def)
qed

section \<open>Evaluation of the scenarios\<close>

lemmas route_defs = isProtectedRoute_def PROTECTED_ROUTES_def DASHBOARD_ROUTES_def LIST_ROUTES_def
  getDashboardRoute_def allowedRolesOf_def protectedPath_def
lemmas effect_defs = render_def mount_def initial_cells_def snapshot_of_def commit_def changed_def
  deps0_def deps1_def deps2_def falsy_def effect0_def effect1_def effect2_def check_def
  setAuthLoading_def router_push_def roleAllowed_def getUserRoleFromClaims_def read_role_def
  decision_def redirected_def
lemmas scenario_defs = claims_user_def signed_in_def unreadable_def signed_out_def loading_def
  fresh_object_def
  store_def post_def

section \<open>The check of one render\<close>

lemma check_signed_in:
  assumes "isLoaded r" "isRoleLoaded r" "pathname r = Some p" "getDashboardRoute p = Some d"
    "\<not> falsy (userId r)"
  shows "check r = (if roleAllowed (userRole r) (allowedRolesOf d) then Allow else Deny)"
proof -
  from assms(4) have "protectedPath (Some p)" by (rule dashboard_protected)
  then have "p \<noteq> []" "isProtectedRoute p" by (simp_all add: protectedPath_def)
  with assms show ?thesis by (simp add: check_def)
qed

lemma check_no_identity:
  assumes "isLoaded r" "isRoleLoaded r" "protectedPath (pathname r)" "falsy (userId r)"
  shows "check r = Deny"
  using assms by (auto simp: check_def protectedPath_def split: option.splits)

section \<open>Reads of the claims and the flag since the entry of a path\<close>

lemma reads_step:
  "roleReads (cells (render e w)) =
     roleReads (cells w) +
       (if changed deps1 (rendered w) (snapshot_of e (cells w)) \<and> isLoaded e
           \<and> \<not> falsy (userId e) \<and> user e \<noteq> None
        then 1 else 0)"
  by (simp add: cells_render commit_def Let_def effect2_role_cells effect0_other effect1_def
      snapshot_of_def)


lemma rendered_pathname:
  "rendered (run (hs @ [e]) mount) = Some q \<Longrightarrow> pathname q = pathname e"
  by (auto simp: run_snoc rendered_render snapshot_of_def)



lemma first_render_waits:
  "protectedPath (pathname e) \<Longrightarrow> decision (run [e] mount) = Waiting"
  by (simp add: decision_def render_def Let_def mount_def snapshot_of_def initial_cells_def
      check_waiting_iff)

section \<open>The claims\<close>

subsection \<open>C1: the loader overlay and the protected subtree\<close>

text \<open>
  Counterexample to C1 as stated.  The first render of \<^verbatim>\<open>/admin\<close>, with Clerk still loading,
  leaves the Loading Flag true, and the page is mounted all the same: \<^verbatim>\<open>RouteProtector\<close>
  always returns its children, and the flag only adds the overlay.
\<close>

theorem content_mounted_under_loader:
  "isAuthLoading (cells (run [loading ''/admin''] mount))
   \<and> decision (run [loading ''/admin''] mount) = Waiting
   \<and> Page ''admin dashboard'' \<in> set (RootLayout
         (isAuthLoading (cells (run [loading ''/admin''] mount))) False ''admin dashboard'')"
  by (simp add: route_defs effect_defs scenario_defs RootLayout_def AuthLoadingOverlay_def
      SignInLoader_def RouteProtector_def)

text \<open>
  C1, amended.  Whenever the check of the latest render ends in ALLOW the Loading Flag is
  false.  The render layer mounts the page whatever the flag says; the flag alone decides
  whether the full-screen loader overlay is mounted on top of it, and the overlay is there
  exactly while the flag is true.
\<close>

theorem overlay_gates_visibility_only:
  "(rendered (run es mount) = Some r \<and> check r = Allow \<longrightarrow> \<not> isAuthLoading (cells (run es mount)))
   \<and> Page children \<in> set (RootLayout flag isVisible children)
   \<and> (LoaderOverlay \<in> set (RootLayout flag isVisible children) \<longleftrightarrow> flag)"
proof -
  have "\<not> isAuthLoading (cells (run es mount))"
    if "rendered (run es mount) = Some r" "check r = Allow"
    using that settled_inv[of es r] by simp
  then show ?thesis
    by (auto simp: RootLayout_def AuthLoadingOverlay_def SignInLoader_def RouteProtector_def)
qed

text \<open>
  Witness for C1, amended: a signed-in user on \<^verbatim>\<open>/list\<close>, allowed on the second render.
\<close>

theorem overlay_gates_visibility_only_witness:
  "rendered (run [signed_in (store [] [] []) ''u1'' ''/list'',
                  signed_in (store [] [] []) ''u1'' ''/list''] mount)
     = Some \<lparr>pathname = Some ''/list'', isLoaded = True, userId = Some ''u1'',
         user = Some (claims_user (store [] [] []) ''u1''), userRole = None, isRoleLoaded = True\<rparr>
   \<and> check \<lparr>pathname = Some ''/list'', isLoaded = True, userId = Some ''u1'',
         user = Some (claims_user (store [] [] []) ''u1''), userRole = None, isRoleLoaded = True\<rparr>
       = Allow
   \<and> \<not> isAuthLoading (cells (run [signed_in (store [] [] []) ''u1'' ''/list'',
                                   signed_in (store [] [] []) ''u1'' ''/list''] mount))
   \<and> Page ''list'' \<in> set (RootLayout False False ''list'')
   \<and> LoaderOverlay \<notin> set (RootLayout False False ''list'')
   \<and> LoaderOverlay \<in> set (RootLayout True False ''list'')"
  using overlay_gates_visibility_only [of
      "[signed_in (store [] [] []) ''u1'' ''/list'', signed_in (store [] [] []) ''u1'' ''/list'']"
      "\<lparr>pathname = Some ''/list'', isLoaded = True, userId = Some ''u1'',
        user = Some (claims_user (store [] [] []) ''u1''), userRole = None, isRoleLoaded = True\<rparr>"
      "''list''" False False]
    overlay_gates_visibility_only [of "[]"
      "\<lparr>pathname = Some ''/list'', isLoaded = True, userId = Some ''u1'',
        user = Some (claims_user (store [] [] []) ''u1''), userRole = None, isRoleLoaded = True\<rparr>"
      "''list''" True False]
  by (simp add: route_defs effect_defs scenario_defs)

subsection \<open>C2: the four roles on the four dashboards\<close>

text \<open>
  C2.  Take any of the four roles and any of the four dashboard paths, and a signed-in
  user whose claims carry the role.  After any history of renders, two renders under this
  environment end in ALLOW when the role is in the allowed set of the path, which is the
  case exactly when the path is the dashboard of the role, and in DENY otherwise; the
  Loading Flag is then false, a denial has pushed the sign-in page, and from a fresh mount
  the sign-in page is the only push of a denial and an allowed user is never redirected.
\<close>

theorem dashboard_matrix:
  assumes "isLoaded e" and "userId e = Some uid" and "uid \<noteq> []" and "user e = Some u"
    and "getUserRoleFromClaims (Some u) = Some rl" and "pathname e = Some p"
    and "rl \<in> set VALID_ROLES" and "p \<in> set (map fst DASHBOARD_ROUTES)"
  shows "decision (run (es @ [e, e]) mount) = (if rl \<in> set (allowedRolesOf p) then Allow else Deny)
       \<and> (rl \<in> set (allowedRolesOf p) \<longleftrightarrow> p = ''/'' @ rl)
       \<and> \<not> isAuthLoading (cells (run (es @ [e, e]) mount))
       \<and> (rl \<notin> set (allowedRolesOf p) \<longrightarrow> redirected (cells (run (es @ [e, e]) mount)))
       \<and> pushed (cells (run [e, e] mount)) =
           (if rl \<in> set (allowedRolesOf p) then [] else [''/sign-in''])"
proof -
  define w where "w = run (es @ [e, e]) mount"
  from assms(7) have rl: "rl \<noteq> []" by (auto simp: VALID_ROLES_def)
  from assms(8) have route: "getDashboardRoute p = Some p" by (rule getDashboardRoute_exact)
  have outcome: "check r = (if rl \<in> set (allowedRolesOf p) then Allow else Deny)"
    if "rendered (run (hs @ [e, e]) mount) = Some r" for hs r
  proof -
    from second_render[OF assms(1), of hs] that assms(2-6)
    have r: "pathname r = Some p" "isLoaded r" "userId r = Some uid" "isRoleLoaded r"
      "userRole r = Some rl"
      by (auto simp: falsy_def)
    with route assms(3) have "check r = (if roleAllowed (userRole r) (allowedRolesOf p) then Allow else Deny)"
      by (intro check_signed_in) (simp_all add: falsy_def)
    with r(5) rl show ?thesis by (simp add: roleAllowed_def falsy_def)
  qed
  obtain r where r: "rendered w = Some r"
    using second_render[OF assms(1), of es] unfolding w_def by blast
  with outcome have c: "check r = (if rl \<in> set (allowedRolesOf p) then Allow else Deny)"
    unfolding w_def by blast
  then have d: "decision w = (if rl \<in> set (allowedRolesOf p) then Allow else Deny)"
    using r by (simp add: decision_def)
  from c have "check r \<noteq> Waiting" by simp
  with r have flag: "\<not> isAuthLoading (cells w)"
    unfolding w_def by (rule settled_inv)
  have red: "redirected (cells w)" if "rl \<notin> set (allowedRolesOf p)"
  proof -
    from that c have "check r = Deny" by simp
    with r show ?thesis unfolding w_def by (rule denied_inv)
  qed
  obtain r' where r': "rendered (run ([] @ [e, e]) mount) = Some r'"
    using second_render[OF assms(1), of "[]"] by blast
  with outcome have "check r' = (if rl \<in> set (allowedRolesOf p) then Allow else Deny)" by blast
  with r' have "decision (run [e, e] mount) = (if rl \<in> set (allowedRolesOf p) then Allow else Deny)"
    by (simp add: decision_def)
  moreover from route have "protectedPath (pathname e)"
    using assms(6) dashboard_protected by simp
  ultimately have fresh: "pushed (cells (run [e, e] mount)) =
      (if rl \<in> set (allowedRolesOf p) then [] else [''/sign-in''])"
    using fresh_mount_pushed[OF assms(1)] by simp
  from assms(7,8) have "(rl \<in> set (allowedRolesOf p)) = (p = ''/'' @ rl)" by (rule allowed_iff)
  with d flag red fresh show ?thesis unfolding w_def by blast
qed

text \<open>
  Witness for C2: the admin and the student on \<^verbatim>\<open>/admin\<close>.
\<close>

theorem dashboard_matrix_witness:
  "decision (run [signed_in (store [] [(''u1'', ''admin'')] []) ''u1'' ''/admin'',
                  signed_in (store [] [(''u1'', ''admin'')] []) ''u1'' ''/admin''] mount) = Allow
   \<and> pushed (cells (run [signed_in (store [] [(''u1'', ''admin'')] []) ''u1'' ''/admin'',
                  signed_in (store [] [(''u1'', ''admin'')] []) ''u1'' ''/admin''] mount)) = []
   \<and> decision (run [signed_in (store [] [(''u2'', ''student'')] []) ''u2'' ''/admin'',
                  signed_in (store [] [(''u2'', ''student'')] []) ''u2'' ''/admin''] mount) = Deny
   \<and> pushed (cells (run [signed_in (store [] [(''u2'', ''student'')] []) ''u2'' ''/admin'',
                  signed_in (store [] [(''u2'', ''student'')] []) ''u2'' ''/admin''] mount))
       = [''/sign-in'']"
  using dashboard_matrix [of "signed_in (store [] [(''u1'', ''admin'')] []) ''u1'' ''/admin''"
      "''u1''" "claims_user (store [] [(''u1'', ''admin'')] []) ''u1''" "''admin''" "''/admin''" "[]"]
    dashboard_matrix [of "signed_in (store [] [(''u2'', ''student'')] []) ''u2'' ''/admin''"
      "''u2''" "claims_user (store [] [(''u2'', ''student'')] []) ''u2''" "''student''" "''/admin''" "[]"]
  by (simp add: scenario_defs getUserRoleFromClaims_def read_role_def falsy_def VALID_ROLES_def
      DASHBOARD_ROUTES_def allowedRolesOf_def)

subsection \<open>C3: no identity on a protected path\<close>

text \<open>
  C3.  On every protected path, once Clerk has loaded without an identity, two renders
  after any history end in DENY with the sign-in page pushed last and the Loading Flag
  false, and every further render under the same environment leaves that state as it is.
\<close>

theorem no_identity_denied:
  assumes "isLoaded e" and "falsy (userId e)" and "protectedPath (pathname e)"
  shows "decision (run (es @ [e, e]) mount) = Deny
       \<and> redirected (cells (run (es @ [e, e]) mount))
       \<and> \<not> isAuthLoading (cells (run (es @ [e, e]) mount))
       \<and> run (es @ replicate (Suc (Suc n)) e) mount = run (es @ [e, e]) mount"
proof -
  define w where "w = run (es @ [e, e]) mount"
  obtain r where r: "rendered w = Some r" "pathname r = pathname e" "isLoaded r"
    "userId r = userId e" "isRoleLoaded r"
    using second_render[OF assms(1), of es] unfolding w_def by blast
  with assms have c: "check r = Deny" by (intro check_no_identity) simp_all
  with r(1) have "decision w = Deny" by (simp add: decision_def)
  moreover from r(1) c have "redirected (cells w)" unfolding w_def by (rule denied_inv)
  moreover from c have "check r \<noteq> Waiting" by simp
  with r(1) have "\<not> isAuthLoading (cells w)" unfolding w_def by (rule settled_inv)
  moreover have "run (es @ replicate (Suc (Suc n)) e) mount = w"
    unfolding w_def run_append run_replicate_settled by simp
  ultimately show ?thesis unfolding w_def by blast
qed

text \<open>
  Witness for C3: \<^verbatim>\<open>/admin\<close> is mounted while Clerk loads, then Clerk reports that nobody
  is signed in.
\<close>

theorem no_identity_denied_witness:
  "isLoaded (signed_out ''/admin'') \<and> falsy (userId (signed_out ''/admin''))
   \<and> protectedPath (pathname (signed_out ''/admin''))
   \<and> decision (run [loading ''/admin'', signed_out ''/admin'', signed_out ''/admin''] mount) = Deny
   \<and> pushed (cells (run [loading ''/admin'', signed_out ''/admin'', signed_out ''/admin''] mount))
       = [''/sign-in'']
   \<and> \<not> isAuthLoading
         (cells (run [loading ''/admin'', signed_out ''/admin'', signed_out ''/admin''] mount))"
  using no_identity_denied [of "signed_out ''/admin''" "[loading ''/admin'']" 0]
  by (simp add: route_defs effect_defs scenario_defs)

subsection \<open>C4: the Loading Flag\<close>




subsection \<open>C5: a role that cannot be read\<close>

text \<open>
  Counterexample to C5 as stated.  The claims of a signed-in user cannot be read.  The
  check on \<^verbatim>\<open>/admin\<close> ends in DENY after a single read of the claims, and no later render
  under the same user object reads them again: there is no retry.
\<close>

theorem role_read_not_retried:
  "decision (run [unreadable ''u1'' ''/admin'', unreadable ''u1'' ''/admin''] mount) = Deny
   \<and> roleReads (cells (run [unreadable ''u1'' ''/admin'', unreadable ''u1'' ''/admin''] mount)) = 1
   \<and> roleReads (cells (run [unreadable ''u1'' ''/admin'', unreadable ''u1'' ''/admin'',
         unreadable ''u1'' ''/admin'', unreadable ''u1'' ''/admin''] mount)) = 1"
  by (simp add: route_defs effect_defs scenario_defs)

text \<open>
  C5, amended.  When the role of a signed-in identity cannot be obtained from the claims
  (the read throws, or there is no role), the check of a dashboard path fails closed: it
  ends in DENY with the sign-in page pushed and the Loading Flag false, and from a fresh
  mount it waits and then denies without ever allowing.  A failed read is never retried:
  a render reads the claims once if the dependencies of effect 1 (\<^verbatim>\<open>isLoaded\<close>, the user
  id, the user object) have changed and an identity is loaded, and not at all otherwise,
  whatever an earlier read returned.  So from a fresh mount the denial comes after
  exactly one read and renders under the same user object read nothing more, while a new
  user object, even of equal content, is read once again.
\<close>

theorem role_read_failure_denied:
  assumes "isLoaded e" and "userId e = Some uid" and "uid \<noteq> []" and "user e = Some u"
    and "getUserRoleFromClaims (Some u) = None"
    and "pathname e = Some p" and "getDashboardRoute p = Some d"
  shows "decision (run (es @ [e, e]) mount) = Deny
       \<and> redirected (cells (run (es @ [e, e]) mount))
       \<and> \<not> isAuthLoading (cells (run (es @ [e, e]) mount))
       \<and> decision (run [e] mount) = Waiting
       \<and> roleReads (cells (run (replicate (Suc (Suc n)) e) mount)) = 1
       \<and> roleReads (cells (render e' w)) =
           roleReads (cells w) +
             (if changed deps1 (rendered w) (snapshot_of e' (cells w)) \<and> isLoaded e'
                 \<and> \<not> falsy (userId e') \<and> user e' \<noteq> None
              then 1 else 0)"
proof -
  define v where "v = run (es @ [e, e]) mount"
  obtain r where r: "rendered v = Some r" "pathname r = Some p" "isLoaded r"
    "userId r = Some uid" "isRoleLoaded r" "userRole r = None"
    using second_render[OF assms(1), of es] assms(2-6) unfolding v_def
    by (auto simp: falsy_def)
  with assms(3,7) have "check r = (if roleAllowed (userRole r) (allowedRolesOf d) then Allow else Deny)"
    by (intro check_signed_in) (simp_all add: falsy_def)
  with r(6) have c: "check r = Deny" by (simp add: roleAllowed_def falsy_def)
  with r(1) have "decision v = Deny" by (simp add: decision_def)
  moreover from r(1) c have "redirected (cells v)" unfolding v_def by (rule denied_inv)
  moreover from c have "check r \<noteq> Waiting" by simp
  with r(1) have "\<not> isAuthLoading (cells v)" unfolding v_def by (rule settled_inv)
  moreover from assms(6,7) have "decision (run [e] mount) = Waiting"
    using dashboard_protected first_render_waits by simp
  moreover have "roleReads (cells (run (replicate (Suc (Suc n)) e) mount)) = 1"
    unfolding run_replicate_settled using assms(1-4)
    by (intro fresh_mount_reads) (simp_all add: falsy_def)
  ultimately show ?thesis unfolding v_def using reads_step [of e' w] by blast
qed

text \<open>
  Witness for C5, amended: five renders under one user object, then a new user object of
  the same content.
\<close>

theorem role_read_failure_denied_witness:
  "getUserRoleFromClaims (user (unreadable ''u1'' ''/admin'')) = None
   \<and> getDashboardRoute ''/admin'' = Some ''/admin''
   \<and> decision (run [unreadable ''u1'' ''/admin''] mount) = Waiting
   \<and> decision (run [unreadable ''u1'' ''/admin'', unreadable ''u1'' ''/admin''] mount) = Deny
   \<and> redirected (cells (run [unreadable ''u1'' ''/admin'', unreadable ''u1'' ''/admin''] mount))
   \<and> roleReads (cells (run (replicate 5 (unreadable ''u1'' ''/admin'')) mount)) = 1
   \<and> roleReads (cells (render (fresh_object 1 (unreadable ''u1'' ''/admin''))
         (run (replicate 5 (unreadable ''u1'' ''/admin'')) mount))) = 2"
proof -
  let ?e = "unreadable ''u1'' ''/admin''"
  have ch: "changed deps1 (rendered (run (replicate 5 ?e) mount))
      (snapshot_of (fresh_object 1 ?e) (cells (run (replicate 5 ?e) mount)))"
    by (simp add: numeral_eq_Suc rendered_render changed_def deps1_def snapshot_of_def
        scenario_defs)
  from role_read_failure_denied [of ?e "''u1''"
      "\<lparr>objectRef = 0, publicMetadata = Some Unreadable\<rparr>" "''/admin''" "''/admin''" "[]" 3
      "fresh_object 1 ?e" "run (replicate 5 ?e) mount"] ch
  show ?thesis
    by (simp add: scenario_defs getUserRoleFromClaims_def read_role_def getDashboardRoute_def
        DASHBOARD_ROUTES_def numeral_eq_Suc falsy_def)
qed

subsection \<open>C6: first-touch provisioning\<close>

text \<open>
  C6 at the identity \<^verbatim>\<open>u1\<close> that has no row.  The endpoint answers 200 with the role
  \<^verbatim>\<open>student\<close> and creates the row, but it never calls Clerk: the claims mirror of \<^verbatim>\<open>u1\<close>
  stays unset (a pending Clerk call is still pending afterwards), and the check of
  \<^verbatim>\<open>/student\<close>, which reads the role from the claims, ends in DENY.
\<close>

theorem first_touch_leaves_claims_unset:
  "fst (role_handler (post None (Str ''u1'') Absent) (store [] [] [])) = (200, Role ''student'')
   \<and> users (snd (role_handler (post None (Str ''u1'') Absent) (store [] [] []))) ''u1''
       = Some \<lparr>email = [], role = ''student''\<rparr>
   \<and> claims (snd (role_handler (post None (Str ''u1'') Absent) (store [] [] []))) ''u1'' = None
   \<and> clerk_calls (snd (role_handler (post None (Str ''u1'') Absent) (store [] [] [True]))) = [True]
   \<and> decision (run
        [signed_in (snd (role_handler (post None (Str ''u1'') Absent) (store [] [] []))) ''u1'' ''/student'',
         signed_in (snd (role_handler (post None (Str ''u1'') Absent) (store [] [] []))) ''u1'' ''/student'']
        mount) = Deny"
  by (simp add: role_handler_def valid_id_def route_defs effect_defs scenario_defs)

subsection \<open>C7: the role update and the claims mirror\<close>

text \<open>
  Counterexample to C7 as stated.  The first call to Clerk fails and a second one would
  succeed.  The update answers 500 after the first call; the second call is never made,
  the row already holds the new role and the mirror still holds the old one.
\<close>

theorem mirror_failure_not_retried:
  "fst (update_role_handler (post (Some (''a1'', ''admin'')) (Str ''u1'') (Str ''teacher''))
          (store [(''u1'', ''student'')] [(''u1'', ''student'')] [False, True]))
     = (500, Error ''Internal server error'')
   \<and> map_option role (users (snd (update_role_handler
          (post (Some (''a1'', ''admin'')) (Str ''u1'') (Str ''teacher''))
          (store [(''u1'', ''student'')] [(''u1'', ''student'')] [False, True]))) ''u1'')
     = Some ''teacher''
   \<and> claims (snd (update_role_handler (post (Some (''a1'', ''admin'')) (Str ''u1'') (Str ''teacher''))
          (store [(''u1'', ''student'')] [(''u1'', ''student'')] [False, True]))) ''u1''
     = Some ''student''
   \<and> clerk_calls (snd (update_role_handler
          (post (Some (''a1'', ''admin'')) (Str ''u1'') (Str ''teacher''))
          (store [(''u1'', ''student'')] [(''u1'', ''student'')] [False, True])))
     = [True]"
  by (simp add: update_role_handler_def updateUserMetadata_def clerk_called_def valid_id_def
      valid_role_def VALID_ROLES_def scenario_defs)

text \<open>
  C7, amended.  The update writes the row and then the claims mirror.  When it answers
  200 with a role, that role is the requested one and both the row and the mirror hold it.
  When the write of the mirror fails after the row was written, the update makes no further
  attempt: it answers 500 after that one call, the row holds the new role and the mirror
  is unchanged.
\<close>

theorem update_role_single_attempt:
  "(fst (update_role_handler req b) = (200, Role x) \<and> valid_id (body_userId req) = Some uid \<longrightarrow>
      valid_role (body_newRole req) = Some x
      \<and> map_option role (users (snd (update_role_handler req b)) uid) = Some x
      \<and> claims (snd (update_role_handler req b)) uid = Some x)
   \<and> (http_method req = ''POST'' \<and> valid_id (body_userId req) = Some uid
        \<and> valid_role (body_newRole req) = Some nr \<and> users b uid = Some row
        \<and> clerk_calls b = False # rest \<longrightarrow>
      fst (update_role_handler req b) = (500, Error ''Internal server error'')
      \<and> users (snd (update_role_handler req b)) uid = Some (row\<lparr>role := nr\<rparr>)
      \<and> claims (snd (update_role_handler req b)) = claims b
      \<and> clerk_calls (snd (update_role_handler req b)) = rest)"
  by (auto simp: update_role_handler_def updateUserMetadata_def clerk_called_def Let_def
      split: option.splits list.splits bool.splits if_splits)

text \<open>
  Witness for C7, amended.
\<close>

theorem update_role_single_attempt_witness:
  "fst (update_role_handler (post None (Str ''u1'') (Str ''teacher''))
          (store [(''u1'', ''student'')] [(''u1'', ''student'')] [])) = (200, Role ''teacher'')
   \<and> map_option role (users (snd (update_role_handler (post None (Str ''u1'') (Str ''teacher''))
          (store [(''u1'', ''student'')] [(''u1'', ''student'')] []))) ''u1'') = Some ''teacher''
   \<and> claims (snd (update_role_handler (post None (Str ''u1'') (Str ''teacher''))
          (store [(''u1'', ''student'')] [(''u1'', ''student'')] []))) ''u1'' = Some ''teacher''
   \<and> fst (update_role_handler (post None (Str ''u1'') (Str ''teacher''))
          (store [(''u1'', ''student'')] [(''u1'', ''student'')] [False, True]))
       = (500, Error ''Internal server error'')
   \<and> clerk_calls (snd (update_role_handler (post None (Str ''u1'') (Str ''teacher''))
          (store [(''u1'', ''student'')] [(''u1'', ''student'')] [False, True]))) = [True]"
proof -
  have ok: "fst (update_role_handler (post None (Str ''u1'') (Str ''teacher''))
          (store [(''u1'', ''student'')] [(''u1'', ''student'')] [])) = (200, Role ''teacher'')"
    by (simp add: update_role_handler_def updateUserMetadata_def clerk_called_def valid_id_def
        valid_role_def VALID_ROLES_def scenario_defs)
  show ?thesis
    using ok
      update_role_single_attempt [of "post None (Str ''u1'') (Str ''teacher'')"
        "store [(''u1'', ''student'')] [(''u1'', ''student'')] []" "''teacher''" "''u1''"]
      update_role_single_attempt [of "post None (Str ''u1'') (Str ''teacher'')"
        "store [(''u1'', ''student'')] [(''u1'', ''student'')] [False, True]" "''teacher''" "''u1''"
        "''teacher''" "\<lparr>email = ''u1@school.test'', role = ''student''\<rparr>" "[True]"]
    by (simp add: valid_id_def valid_role_def VALID_ROLES_def scenario_defs)
qed

subsection \<open>C8: the lookup of the dashboard route\<close>

text \<open>
  Counterexample to C8 as stated.  \<^verbatim>\<open>/list\<close> is an entry of the protected routes and a
  prefix of itself, and \<^verbatim>\<open>/admin\<close> is a prefix of \<^verbatim>\<open>/administrator\<close>; the lookup returns
  \<^verbatim>\<open>null\<close> for both paths, and neither path is public.
\<close>

theorem lookup_null_not_public:
  "getDashboardRoute ''/list'' = None \<and> ''/list'' \<in> set PROTECTED_ROUTES
   \<and> prefix ''/list'' ''/list'' \<and> isProtectedRoute ''/list''
   \<and> getDashboardRoute ''/administrator'' = None \<and> ''/admin'' \<in> set (map fst DASHBOARD_ROUTES)
   \<and> prefix ''/admin'' ''/administrator'' \<and> isProtectedRoute ''/administrator''"
  by (simp add: getDashboardRoute_def isProtectedRoute_def PROTECTED_ROUTES_def
      DASHBOARD_ROUTES_def LIST_ROUTES_def)

text \<open>
  C8, amended.  The lookup returns a dashboard route exactly when the path is that route or
  lies below it (the route followed by a slash), and \<^verbatim>\<open>null\<close> exactly when no dashboard
  route matches in this way.  The route it returns is the only entry of the protected
  routes that is a prefix of the path, so no two entries ever compete.  \<^verbatim>\<open>null\<close> does not
  mean that the path is public.
\<close>

theorem getDashboardRoute_segment_lookup:
  "(getDashboardRoute p = Some d \<longleftrightarrow> d \<in> set (map fst DASHBOARD_ROUTES) \<and> segment_match d p)
   \<and> (getDashboardRoute p = None \<longleftrightarrow> (\<forall>k \<in> set (map fst DASHBOARD_ROUTES). \<not> segment_match k p))
   \<and> (getDashboardRoute p = Some d \<longrightarrow> (\<forall>k \<in> set PROTECTED_ROUTES. prefix k p \<longrightarrow> k = d))"
proof -
  have some: "getDashboardRoute p = Some d"
    if d: "d \<in> set (map fst DASHBOARD_ROUTES)" "segment_match d p"
  proof -
    from d have "getDashboardRoute p \<noteq> None" by (auto simp: getDashboardRoute_None)
    then obtain k where k: "getDashboardRoute p = Some k" by blast
    then have "k \<in> set (map fst DASHBOARD_ROUTES)" "prefix k p"
      using getDashboardRoute_Some segment_match_prefix by blast+
    then have "k \<in> set PROTECTED_ROUTES" "prefix k p" by (simp_all add: PROTECTED_ROUTES_def)
    with d have "k = d" by (rule only_prefix)
    with k show ?thesis by simp
  qed
  have only: "\<forall>k \<in> set PROTECTED_ROUTES. prefix k p \<longrightarrow> k = d"
    if "getDashboardRoute p = Some d"
  proof -
    from that have "d \<in> set (map fst DASHBOARD_ROUTES)" "segment_match d p"
      using getDashboardRoute_Some by blast+
    then show ?thesis using only_prefix by blast
  qed
  from some only getDashboardRoute_Some [of p d] getDashboardRoute_None [of p]
  show ?thesis by blast
qed

text \<open>
  Witness for C8, amended.
\<close>

theorem getDashboardRoute_segment_lookup_witness:
  "getDashboardRoute ''/admin/users'' = Some ''/admin''
   \<and> ''/admin'' \<in> set (map fst DASHBOARD_ROUTES) \<and> segment_match ''/admin'' ''/admin/users''
   \<and> getDashboardRoute ''/sign-in'' = None
   \<and> \<not> segment_match ''/admin'' ''/sign-in''"
proof -
  have a: "getDashboardRoute ''/admin/users'' = Some ''/admin''"
    by (simp add: getDashboardRoute_def DASHBOARD_ROUTES_def)
  have b: "getDashboardRoute ''/sign-in'' = None"
    by (simp add: getDashboardRoute_def DASHBOARD_ROUTES_def)
  have c: "''/admin'' \<in> set (map fst DASHBOARD_ROUTES)"
    by (simp add: DASHBOARD_ROUTES_def)
  from a b c getDashboardRoute_segment_lookup [of "''/admin/users''" "''/admin''"]
    getDashboardRoute_segment_lookup [of "''/sign-in''" "''/admin''"]
  show ?thesis by auto
qed

subsection \<open>C9: who may update a role\<close>

text \<open>
  C9 at a request without a session, and at the request of a student for itself.  The
  handler never looks at the caller: both requests are answered 200, and the row and the
  claims mirror of \<^verbatim>\<open>u1\<close> hold \<^verbatim>\<open>admin\<close> afterwards.
\<close>

theorem anyone_can_update_roles:
  "fst (update_role_handler (post None (Str ''u1'') (Str ''admin''))
          (store [(''u1'', ''student'')] [(''u1'', ''student'')] [])) = (200, Role ''admin'')
   \<and> map_option role (users (snd (update_role_handler (post None (Str ''u1'') (Str ''admin''))
          (store [(''u1'', ''student'')] [(''u1'', ''student'')] []))) ''u1'') = Some ''admin''
   \<and> claims (snd (update_role_handler (post None (Str ''u1'') (Str ''admin''))
          (store [(''u1'', ''student'')] [(''u1'', ''student'')] []))) ''u1'' = Some ''admin''
   \<and> fst (update_role_handler (post (Some (''u1'', ''student'')) (Str ''u1'') (Str ''admin''))
          (store [(''u1'', ''student'')] [(''u1'', ''student'')] [])) = (200, Role ''admin'')"
  by (simp add: update_role_handler_def updateUserMetadata_def clerk_called_def valid_id_def
      valid_role_def VALID_ROLES_def scenario_defs)

subsection \<open>C10: the role endpoint does not depend on the caller\<close>

text \<open>
  C10.  Two requests with the same method and the same \<^verbatim>\<open>userId\<close> get the same answer
  and leave the same store, whoever sent them and with or without a session.  A POST for a
  non-empty identity is answered 200 with the role of its row and leaves the store as it
  is, or, when there is no row, is answered 200 with \<^verbatim>\<open>student\<close> and adds to the store
  exactly the row of that identity with the role \<^verbatim>\<open>student\<close>.
\<close>

theorem role_handler_ignores_caller:
  "(http_method r1 = http_method r2 \<and> body_userId r1 = body_userId r2 \<longrightarrow>
      role_handler r1 b = role_handler r2 b)
   \<and> (http_method r1 = ''POST'' \<and> body_userId r1 = Str uid \<and> uid \<noteq> [] \<longrightarrow>
        fst (role_handler r1 b) =
          (200, Role (case users b uid of Some row \<Rightarrow> role row | None \<Rightarrow> ''student''))
        \<and> snd (role_handler r1 b) =
          (case users b uid of
             Some row \<Rightarrow> b
           | None \<Rightarrow> b\<lparr>users := (users b)(uid \<mapsto> \<lparr>email = [], role = ''student''\<rparr>)\<rparr>)
        \<and> users (snd (role_handler r1 b)) uid \<noteq> None)"
  by (auto simp: role_handler_def valid_id_def Let_def split: option.splits)

text \<open>
  Witness for C10: an anonymous caller and a parent ask for the role of \<^verbatim>\<open>u1\<close>.
\<close>

theorem role_handler_ignores_caller_witness:
  "role_handler (post None (Str ''u1'') Absent) (store [] [] [])
     = role_handler (post (Some (''u2'', ''parent'')) (Str ''u1'') Absent) (store [] [] [])
   \<and> fst (role_handler (post None (Str ''u1'') Absent) (store [] [] [])) = (200, Role ''student'')
   \<and> users (snd (role_handler (post (Some (''u2'', ''parent'')) (Str ''u1'') Absent)
         (store [] [] []))) ''u1'' = Some \<lparr>email = [], role = ''student''\<rparr>
   \<and> fst (role_handler (post None (Str ''u1'') Absent) (store [(''u1'', ''admin'')] [] []))
       = (200, Role ''admin'')
   \<and> snd (role_handler (post None (Str ''u1'') Absent) (store [(''u1'', ''admin'')] [] []))
       = store [(''u1'', ''admin'')] [] []"
proof -
  have a: "users (store [] [] []) ''u1'' = None"
    "users (store [(''u1'', ''admin'')] [] []) ''u1''
       = Some \<lparr>email = ''u1@school.test'', role = ''admin''\<rparr>"
    by (simp_all add: store_def)
  from role_handler_ignores_caller [of "post None (Str ''u1'') Absent"
      "post (Some (''u2'', ''parent'')) (Str ''u1'') Absent" "store [] [] []" "''u1''"]
  have b: "role_handler (post None (Str ''u1'') Absent) (store [] [] [])
     = role_handler (post (Some (''u2'', ''parent'')) (Str ''u1'') Absent) (store [] [] [])"
    "fst (role_handler (post None (Str ''u1'') Absent) (store [] [] [])) = (200, Role ''student'')"
    "snd (role_handler (post None (Str ''u1'') Absent) (store [] [] []))
       = (store [] [] [])\<lparr>users := (users (store [] [] []))(''u1'' \<mapsto> \<lparr>email = [], role = ''student''\<rparr>)\<rparr>"
    by (auto simp: post_def a)
  from role_handler_ignores_caller [of "post None (Str ''u1'') Absent"
      "post None (Str ''u1'') Absent" "store [(''u1'', ''admin'')] [] []" "''u1''"]
  have c: "fst (role_handler (post None (Str ''u1'') Absent) (store [(''u1'', ''admin'')] [] []))
       = (200, Role ''admin'')"
    "snd (role_handler (post None (Str ''u1'') Absent) (store [(''u1'', ''admin'')] [] []))
       = store [(''u1'', ''admin'')] [] []"
    by (auto simp: post_def a)
  from b(3) have "users (snd (role_handler (post None (Str ''u1'') Absent) (store [] [] [])))
      ''u1'' = Some \<lparr>email = [], role = ''student''\<rparr>" by simp
  with b(1) have "users (snd (role_handler (post (Some (''u2'', ''parent'')) (Str ''u1'') Absent)
         (store [] [] []))) ''u1'' = Some \<lparr>email = [], role = ''student''\<rparr>" by simp
  with b c show ?thesis by blast
qed

end
